theory Spec2Isabelle
  imports
    Complex_Main
    "HOL-Library.Word"
    "HOL-Library.Multiset"
    "HOL-Library.List_Lexorder"
    "HOL-Library.Char_ord"
begin

unbundle bit_operations_syntax

section \<open>Data model\<close>

text \<open>
  Go's \<^verbatim>\<open>int64\<close> is a 64-bit word read as a signed number: timestamps are only
  copied and compared, and the comparisons of the source (\<^verbatim>\<open>>=\<close>, \<^verbatim>\<open><=\<close>) are the
  signed ones. \<^verbatim>\<open>float64\<close> values are only stored and copied (and defaulted to the zero
  value), so they are a type parameter \<open>'v\<close> with a zero; the conversion
  \<^verbatim>\<open>float64(uint64)\<close> used for histogram and summary counts is passed as a function
  \<open>f64\<close>. Go strings are byte strings, ordered bytewise, as \<open>string\<close> is here.
\<close>

type_synonym int64 = "64 word"

text \<open>\<^verbatim>\<open>labels.Label\<close> and \<^verbatim>\<open>labels.Labels\<close> (the slice representation the source
  builds with \<^verbatim>\<open>make\<close> and \<^verbatim>\<open>append\<close>).\<close>

record Label =
  label_Name :: string
  label_Value :: string

type_synonym Labels = "Label list"

text \<open>\<^verbatim>\<open>MetricResult\<close>, \<^verbatim>\<open>Sample\<close> and \<^verbatim>\<open>TimeSeries\<close> of the source. The two
  fields of \<^verbatim>\<open>MetricResult\<close> that share a name with those of \<^verbatim>\<open>Sample\<close> carry the
  prefix \<open>MR_\<close>.\<close>

record 'v MetricResult =
  MetricName :: string
  Labels :: "string \<rightharpoonup> string"
  MR_Value :: 'v
  MR_Timestamp :: int64

record 'v Sample =
  Timestamp :: int64
  Value :: 'v

record 'v TimeSeries =
  SeriesLabels :: Labels
  Samples :: "'v Sample list"

text \<open>The index \<^verbatim>\<open>MetricStore.series\<close>: a map from series key to series. The mutex, the
  engine and the storage wrapper hold no data.\<close>

type_synonym 'v MetricStore = "string \<rightharpoonup> 'v TimeSeries"

definition NewMetricStore :: "'v MetricStore" where
  "NewMetricStore = Map.empty"

record 'v InMemoryQuerier =
  store :: "'v MetricStore"
  mint :: int64
  maxt :: int64

record 'v InMemorySeriesIterator =
  samples :: "'v Sample list"
  current :: int

text \<open>\<^verbatim>\<open>chunkenc.ValueType\<close>, the two values the iterator returns.\<close>

datatype ValueType = ValNone | ValFloat

subsection \<open>Evaluator results (package promql)\<close>

text \<open>The fields the source reads of \<^verbatim>\<open>promql.Sample\<close>, \<^verbatim>\<open>promql.FPoint\<close>,
  \<^verbatim>\<open>promql.Series\<close> and \<^verbatim>\<open>promql.Scalar\<close>. A result value is one of the four types
  that implement \<^verbatim>\<open>parser.Value\<close> (vector, scalar, matrix, string), or the nil
  interface.\<close>

record 'v promql_Sample =
  sample_Metric :: Labels
  sample_T :: int64
  sample_F :: 'v

record 'v FPoint =
  T :: int64
  F :: 'v

record 'v Series =
  series_Metric :: Labels
  Floats :: "'v FPoint list"

record 'v Scalar =
  scalar_T :: int64
  scalar_V :: 'v

datatype 'v promql_Value =
    is_Vector: promql_Vector "'v promql_Sample list"
  | is_Scalar: promql_Scalar "'v Scalar"
  | is_Matrix: promql_Matrix "'v Series list"
  | promql_String int64 string
  | promql_nil

record 'v Result =
  Result_Err :: "string option"
  Result_Value :: "'v promql_Value"

text \<open>The error of \<^verbatim>\<open>convertPromQLResult\<close>: \<^verbatim>\<open>fmt.Errorf("unsupported result type: %T", v)\<close>,
  carrying the printed type name.\<close>

datatype error = UnsupportedResultType string

section \<open>Label lookup\<close>

text \<open>\<^verbatim>\<open>Labels.Get\<close>: the value of the first label with the given name, and the empty
  string when there is none.\<close>

fun Get :: "Labels \<Rightarrow> string \<Rightarrow> string" where
  "Get [] name = ''''"
| "Get (l # ls) name = (if label_Name l = name then label_Value l else Get ls name)"

section \<open>Result Materializer\<close>

text \<open>The loop \<^verbatim>\<open>for _, label := range m { labels[label.Name] = label.Value }\<close> on a
  fresh map: a later label overwrites an earlier one of the same name.\<close>

definition convert_labels :: "Labels \<Rightarrow> (string \<rightharpoonup> string)" where
  "convert_labels m = foldl (\<lambda>labels label. labels(label_Name label \<mapsto> label_Value label)) Map.empty m"

text \<open>The body of the loop over a vector: one row is appended per sample.\<close>

definition vector_step :: "'v MetricResult list \<Rightarrow> 'v promql_Sample \<Rightarrow> 'v MetricResult list" where
  "vector_step results sample =
     results @ [\<lparr>MetricName = Get (sample_Metric sample) ''__name__'',
                 Labels = convert_labels (sample_Metric sample),
                 MR_Value = sample_F sample,
                 MR_Timestamp = sample_T sample\<rparr>]"

text \<open>The body of the loop over a matrix: a row is appended only when the series has
  at least one float point, and it is built from the last one.\<close>

definition matrix_step :: "'v MetricResult list \<Rightarrow> 'v Series \<Rightarrow> 'v MetricResult list" where
  "matrix_step results series =
     (let metricName = Get (series_Metric series) ''__name__'';
          labels = convert_labels (series_Metric series)
      in if length (Floats series) > 0
         then (let latest = Floats series ! (length (Floats series) - 1)
               in results @ [\<lparr>MetricName = metricName, Labels = labels,
                               MR_Value = F latest, MR_Timestamp = T latest\<rparr>])
         else results)"

text \<open>\<^verbatim>\<open>convertPromQLResult\<close> returns the pair (rows, error) as the Go function does;
  \<open>None\<close> is the nil error and \<open>[]\<close> the nil slice.\<close>

fun convertPromQLResult :: "'v Result \<Rightarrow> 'v MetricResult list \<times> error option" where
  "convertPromQLResult result =
     (case Result_Value result of
        promql_Vector v \<Rightarrow> (foldl vector_step [] v, None)
      | promql_Scalar v \<Rightarrow>
          ([\<lparr>MetricName = ''scalar'', Labels = Map.empty,
             MR_Value = scalar_V v, MR_Timestamp = scalar_T v\<rparr>], None)
      | promql_Matrix v \<Rightarrow> (foldl matrix_step [] v, None)
      | promql_String t s \<Rightarrow> ([], Some (UnsupportedResultType ''promql.String''))
      | promql_nil \<Rightarrow> ([], Some (UnsupportedResultType ''<nil>'')))"

section \<open>Series iterator\<close>

text \<open>\<^verbatim>\<open>Next\<close> advances by one and reports whether a sample is there.\<close>

definition Next :: "'v InMemorySeriesIterator \<Rightarrow> ValueType \<times> 'v InMemorySeriesIterator" where
  "Next it =
     (let it' = it\<lparr>current := current it + 1\<rparr>
      in if current it' \<ge> int (length (samples it')) then (ValNone, it') else (ValFloat, it'))"

text \<open>The loop of \<^verbatim>\<open>Seek\<close>, from index \<open>i\<close> on: the index of the first sample whose
  timestamp is at least \<open>t\<close>, if there is one.\<close>

fun seek_from :: "nat \<Rightarrow> 'v Sample list \<Rightarrow> int64 \<Rightarrow> nat option" where
  "seek_from i [] t = None"
| "seek_from i (sample # rest) t =
     (if t \<le>s Timestamp sample then Some i else seek_from (Suc i) rest t)"

definition Seek :: "'v InMemorySeriesIterator \<Rightarrow> int64 \<Rightarrow> ValueType \<times> 'v InMemorySeriesIterator" where
  "Seek it t =
     (case seek_from 0 (samples it) t of
        Some i \<Rightarrow> (ValFloat, it\<lparr>current := int i\<rparr>)
      | None \<Rightarrow> (ValNone, it\<lparr>current := int (length (samples it))\<rparr>))"

text \<open>A slice read \<^verbatim>\<open>xs[i]\<close> panics when \<open>i\<close> is out of range; \<open>None\<close> is the panic.\<close>

definition index :: "'a list \<Rightarrow> int \<Rightarrow> 'a option" where
  "index xs i = (if 0 \<le> i \<and> i < int (length xs) then Some (xs ! nat i) else None)"

text \<open>\<^verbatim>\<open>At\<close> and \<^verbatim>\<open>AtT\<close>; the result \<open>None\<close> stands for a run-time panic of the slice
  read.\<close>

definition At :: "('v::zero) InMemorySeriesIterator \<Rightarrow> (int64 \<times> 'v) option" where
  "At it =
     (if current it < 0 \<or> current it \<ge> int (length (samples it)) then Some (0, 0)
      else (case index (samples it) (current it) of
              None \<Rightarrow> None
            | Some sample \<Rightarrow> Some (Timestamp sample, Value sample)))"

definition AtT :: "'v InMemorySeriesIterator \<Rightarrow> int64 option" where
  "AtT it =
     (if current it < 0 \<or> current it \<ge> int (length (samples it)) then Some 0
      else (case index (samples it) (current it) of
              None \<Rightarrow> None
            | Some sample \<Rightarrow> Some (Timestamp sample)))"


section \<open>Library functions the store calls\<close>

subsection \<open>\<^verbatim>\<open>sort.Slice\<close>\<close>

text \<open>
  \<^verbatim>\<open>sort.Slice(x, less)\<close> sorts a slice of at most twelve elements by insertion sort:
  for each index in turn, the element there moves to the left as long as it is less than
  its left neighbour. \<open>insert_back\<close> is that inner loop, on the sorted prefix held in
  reverse (nearest neighbour first), and \<open>sort_Slice\<close> is that insertion sort. Go sorts
  a longer slice by another algorithm, which is not stable: its result is a permutation
  ordered by the \<^verbatim>\<open>less\<close> function, equal to the result of \<open>sort_Slice\<close> whenever no
  two elements are equivalent under that function (\<open>sort_Slice_unique\<close> below, for the
  order by label name), and possibly another arrangement of the equivalent elements
  otherwise. The statements below that involve a sort are about label lists with
  pairwise distinct names, or about the result as a multiset.
\<close>

fun insert_back :: "('a \<Rightarrow> 'a \<Rightarrow> bool) \<Rightarrow> 'a \<Rightarrow> 'a list \<Rightarrow> 'a list" where
  "insert_back lessf x [] = [x]"
| "insert_back lessf x (y # rs) =
     (if lessf x y then y # insert_back lessf x rs else x # y # rs)"

definition sort_Slice :: "('a \<Rightarrow> 'a \<Rightarrow> bool) \<Rightarrow> 'a list \<Rightarrow> 'a list" where
  "sort_Slice lessf xs = rev (foldl (\<lambda>rs x. insert_back lessf x rs) [] xs)"

subsection \<open>\<^verbatim>\<open>Labels.String\<close>, \<^verbatim>\<open>labels.Compare\<close> and matchers\<close>

text \<open>
  \<^verbatim>\<open>strconv.Quote\<close> puts a string between double quotes. A double quote and a
  backslash get a backslash in front; the control characters bell, backspace, form
  feed, newline, carriage return, tab and vertical tab are written \<^verbatim>\<open>\a \b \f \n \r \t \v\<close>;
  every other byte below \<open>0x20\<close>, and \<open>0x7f\<close>, is written \<^verbatim>\<open>\x\<close> and two lower-case
  hexadecimal digits; the printable ASCII characters are copied. This is the whole of
  the function on ASCII strings. Bytes from \<open>0x80\<close> on are copied, as Go copies
  printable text in UTF-8 (it escapes invalid UTF-8 and runes that are not printable,
  which is outside what is modelled here).
\<close>

definition lowerhex :: "nat \<Rightarrow> char" where
  "lowerhex n = ''0123456789abcdef'' ! n"

definition quote_char :: "char \<Rightarrow> string" where
  "quote_char c =
     (if c = CHR 0x22 \<or> c = CHR 0x5C then [CHR 0x5C, c]
      else if c = CHR 0x07 then [CHR 0x5C, CHR ''a'']
      else if c = CHR 0x08 then [CHR 0x5C, CHR ''b'']
      else if c = CHR 0x0C then [CHR 0x5C, CHR ''f'']
      else if c = CHR 0x0A then [CHR 0x5C, CHR ''n'']
      else if c = CHR 0x0D then [CHR 0x5C, CHR ''r'']
      else if c = CHR 0x09 then [CHR 0x5C, CHR ''t'']
      else if c = CHR 0x0B then [CHR 0x5C, CHR ''v'']
      else if c < CHR 0x20 \<or> c = CHR 0x7F
        then [CHR 0x5C, CHR ''x'', lowerhex (of_char c div 16), lowerhex (of_char c mod 16)]
      else [c])"

definition Quote :: "string \<Rightarrow> string" where
  "Quote s = [CHR 0x22] @ concat (map quote_char s) @ [CHR 0x22]"

text \<open>\<^verbatim>\<open>LabelName.IsValidLegacy\<close>: a non-empty name of ASCII letters, underscores and, after
  the first character, digits.\<close>

definition legacy_letter :: "char \<Rightarrow> bool" where
  "legacy_letter b \<longleftrightarrow>
     (CHR ''a'' \<le> b \<and> b \<le> CHR ''z'') \<or> (CHR ''A'' \<le> b \<and> b \<le> CHR ''Z'') \<or> b = CHR ''_''"

definition legacy_digit :: "char \<Rightarrow> bool" where
  "legacy_digit b \<longleftrightarrow> CHR ''0'' \<le> b \<and> b \<le> CHR ''9''"

fun IsValidLegacy :: "string \<Rightarrow> bool" where
  "IsValidLegacy [] = False"
| "IsValidLegacy (b # bs) =
     (legacy_letter b \<and> list_all (\<lambda>b. legacy_letter b \<or> legacy_digit b) bs)"

text \<open>\<^verbatim>\<open>Labels.String\<close>: the labels in their order, as \<^verbatim>\<open>{name="value", ...}\<close>; a name
  is written as it is when it is a valid legacy name, and quoted otherwise.\<close>

definition write_label :: "Label \<Rightarrow> string" where
  "write_label l =
     (if \<not> IsValidLegacy (label_Name l) then Quote (label_Name l) else label_Name l) @
     ''='' @ Quote (label_Value l)"

fun write_labels :: "Labels \<Rightarrow> string" where
  "write_labels [] = []"
| "write_labels [l] = write_label l"
| "write_labels (l # l' # ls) = write_label l @ '', '' @ write_labels (l' # ls)"

definition Labels_String :: "Labels \<Rightarrow> string" where
  "Labels_String ls = ''{'' @ write_labels ls @ ''}''"

text \<open>\<^verbatim>\<open>labels.Compare\<close>: the first differing name or value decides; when one label list
  is a prefix of the other, the shorter one comes first.\<close>

fun Compare :: "Labels \<Rightarrow> Labels \<Rightarrow> int" where
  "Compare (a # as) (b # bs) =
     (if label_Name a \<noteq> label_Name b then (if label_Name a < label_Name b then - 1 else 1)
      else if label_Value a \<noteq> label_Value b then (if label_Value a < label_Value b then - 1 else 1)
      else Compare as bs)"
| "Compare as bs = int (length as) - int (length bs)"

text \<open>A \<^verbatim>\<open>labels.Matcher\<close>: its type, the label name, the value it compares with and,
  for the two regular-expression types, the compiled expression as the predicate
  \<^verbatim>\<open>re.MatchString\<close>.\<close>

datatype MatchType = MatchEqual | MatchNotEqual | MatchRegexp | MatchNotRegexp

record Matcher =
  matcher_Type :: MatchType
  matcher_Name :: string
  matcher_Value :: string
  re_MatchString :: "string \<Rightarrow> bool"

definition Matches :: "Matcher \<Rightarrow> string \<Rightarrow> bool" where
  "Matches m s =
     (case matcher_Type m of
        MatchEqual \<Rightarrow> s = matcher_Value m
      | MatchNotEqual \<Rightarrow> s \<noteq> matcher_Value m
      | MatchRegexp \<Rightarrow> re_MatchString m s
      | MatchNotRegexp \<Rightarrow> \<not> re_MatchString m s)"

subsection \<open>Metric families (package \<^verbatim>\<open>dto\<close>) and the clock\<close>

text \<open>
  The fields and getters \<^verbatim>\<open>AddMetricFamilies\<close> reads. A label pair is given by the
  results of \<^verbatim>\<open>GetName()\<close> and \<^verbatim>\<open>GetValue()\<close>. Each of the five value fields of a metric
  is \<open>None\<close> for a nil pointer and otherwise holds what the source reads through it:
  \<^verbatim>\<open>GetValue()\<close> of a counter, gauge or untyped value, \<^verbatim>\<open>GetSampleCount()\<close> of a histogram
  or summary. The family and metric pointers themselves are taken to be non-nil, as the
  decoder produces them.
\<close>

datatype MetricType = COUNTER | GAUGE | SUMMARY | UNTYPED | HISTOGRAM | GAUGE_HISTOGRAM

record LabelPair =
  GetName :: string
  GetValue :: string

record 'v Metric =
  metric_Label :: "LabelPair list"
  Counter :: "'v option"
  Gauge :: "'v option"
  Histogram :: "64 word option"
  Summary :: "64 word option"
  Untyped :: "'v option"

record 'v MetricFamily =
  GetType :: MetricType
  Metric :: "'v Metric list"

text \<open>
  The wall clock: \<open>readings clk n\<close> is what the \<open>n\<close>-th reading of the clock returns,
  and \<open>reads clk\<close> counts the readings made so far. \<^verbatim>\<open>time.Now().UnixMilli()\<close> returns the
  next reading.
\<close>

record clock =
  readings :: "nat \<Rightarrow> int64"
  reads :: nat

definition time_Now_UnixMilli :: "clock \<Rightarrow> int64 \<times> clock" where
  "time_Now_UnixMilli clk = (readings clk (reads clk), clk\<lparr>reads := Suc (reads clk)\<rparr>)"

section \<open>Ingestion\<close>

text \<open>Lines 102 to 116: the name label first, then the labels of the metric, sorted by
  label name.\<close>

definition build_labels :: "string \<Rightarrow> 'v Metric \<Rightarrow> Labels" where
  "build_labels metricName metric =
     sort_Slice (\<lambda>a b. label_Name a < label_Name b)
       (\<lparr>label_Name = ''__name__'', label_Value = metricName\<rparr> #
        map (\<lambda>label. \<lparr>label_Name = GetName label, label_Value = GetValue label\<rparr>)
          (metric_Label metric))"

text \<open>Line 119: the series key is the printed form of the sorted labels.\<close>

definition seriesKey :: "string \<Rightarrow> 'v Metric \<Rightarrow> string" where
  "seriesKey metricName metric = Labels_String (build_labels metricName metric)"

text \<open>The switch on the family's type; the value stays zero when the field for the type
  is nil, and for a type the switch does not list.\<close>

definition extract_value :: "(64 word \<Rightarrow> 'v) \<Rightarrow> MetricType \<Rightarrow> 'v Metric \<Rightarrow> 'v::zero" where
  "extract_value f64 ty metric =
     (case ty of
        COUNTER \<Rightarrow> (case Counter metric of Some v \<Rightarrow> v | None \<Rightarrow> 0)
      | GAUGE \<Rightarrow> (case Gauge metric of Some v \<Rightarrow> v | None \<Rightarrow> 0)
      | HISTOGRAM \<Rightarrow> (case Histogram metric of Some n \<Rightarrow> f64 n | None \<Rightarrow> 0)
      | SUMMARY \<Rightarrow> (case Summary metric of Some n \<Rightarrow> f64 n | None \<Rightarrow> 0)
      | UNTYPED \<Rightarrow> (case Untyped metric of Some v \<Rightarrow> v | None \<Rightarrow> 0)
      | GAUGE_HISTOGRAM \<Rightarrow> 0)"

text \<open>Lines 163 to 165: keep the last 1000 samples.\<close>

definition retain :: "'a list \<Rightarrow> 'a list" where
  "retain xs = (if length xs > 1000 then drop (length xs - 1000) xs else xs)"

text \<open>The body of the inner loop, for one metric of a family: find or create the series
  of the key, append the sample, trim.\<close>

definition add_metric ::
  "(64 word \<Rightarrow> 'v) \<Rightarrow> int64 \<Rightarrow> string \<Rightarrow> MetricType \<Rightarrow> 'v MetricStore \<Rightarrow> ('v::zero) Metric \<Rightarrow> 'v MetricStore" where
  "add_metric f64 timestamp metricName ty s metric =
     (let lbls = build_labels metricName metric;
          key = seriesKey metricName metric;
          series = (case s key of
                      Some series \<Rightarrow> series
                    | None \<Rightarrow> \<lparr>SeriesLabels = lbls, Samples = []\<rparr>);
          value = extract_value f64 ty metric;
          appended = Samples series @ [\<lparr>Timestamp = timestamp, Value = value\<rparr>]
      in s(key \<mapsto> series\<lparr>Samples := retain appended\<rparr>))"

text \<open>The body of the outer loop, for one entry of the \<^verbatim>\<open>families\<close> map.\<close>

definition add_family ::
  "(64 word \<Rightarrow> 'v) \<Rightarrow> int64 \<Rightarrow> 'v MetricStore \<Rightarrow> string \<times> ('v::zero) MetricFamily \<Rightarrow> 'v MetricStore" where
  "add_family f64 timestamp s entry =
     (case entry of (metricName, family) \<Rightarrow>
        foldl (add_metric f64 timestamp metricName (GetType family)) s (Metric family))"

text \<open>
  \<^verbatim>\<open>AddMetricFamilies\<close>. The map \<^verbatim>\<open>families\<close> is given as the list of its entries in the
  order in which the \<^verbatim>\<open>range\<close> statement visits them. The state is the clock and the
  index.
\<close>

definition AddMetricFamilies ::
  "(64 word \<Rightarrow> 'v) \<Rightarrow> (string \<times> ('v::zero) MetricFamily) list \<Rightarrow> clock \<times> 'v MetricStore
     \<Rightarrow> clock \<times> 'v MetricStore" where
  "AddMetricFamilies f64 families st =
     (case st of (clk, s) \<Rightarrow>
        (case time_Now_UnixMilli clk of (timestamp, clk') \<Rightarrow>
           (clk', foldl (add_family f64 timestamp) s families)))"

text \<open>A sequence of ingest calls, one batch after the other.\<close>

definition ingest_all ::
  "(64 word \<Rightarrow> 'v) \<Rightarrow> (string \<times> ('v::zero) MetricFamily) list list \<Rightarrow> clock \<times> 'v MetricStore
     \<Rightarrow> clock \<times> 'v MetricStore" where
  "ingest_all f64 batches st = foldl (\<lambda>st families. AddMetricFamilies f64 families st) st batches"

subsection \<open>What a batch appends to a series\<close>

text \<open>
  The notions the statements about ingestion are written in. \<open>samples_of s k\<close> is the
  sample sequence of the series with key \<open>k\<close>, empty when the index has no such series.
  \<open>most_recent n xs\<close> is what the specification calls the most recent \<open>n\<close> samples: the
  last \<open>n\<close> elements of \<open>xs\<close> in their order, all of \<open>xs\<close> when it has no more than \<open>n\<close>.
  \<open>instances families\<close> lists the metric instances of a batch in the order the two loops
  visit them, each with its metric name and the type of its family.
  \<open>batch_samples f64 ts k families\<close> is the list of the samples, each with the timestamp
  \<open>ts\<close>, of the instances of the batch whose series key is \<open>k\<close>, and
  \<open>appended_samples f64 clk k batches\<close> is the same for a sequence of batches, the
  \<open>i\<close>-th batch with the \<open>i\<close>-th next reading of the clock \<open>clk\<close>.
\<close>

definition samples_of :: "'v MetricStore \<Rightarrow> string \<Rightarrow> 'v Sample list" where
  "samples_of s k = (case s k of None \<Rightarrow> [] | Some series \<Rightarrow> Samples series)"

definition most_recent :: "nat \<Rightarrow> 'a list \<Rightarrow> 'a list" where
  "most_recent n xs = drop (length xs - n) xs"

definition instances ::
  "(string \<times> 'v MetricFamily) list \<Rightarrow> (string \<times> MetricType \<times> 'v Metric) list" where
  "instances families =
     concat (map (\<lambda>(metricName, family).
                    map (\<lambda>metric. (metricName, GetType family, metric)) (Metric family))
                 families)"

definition batch_samples ::
  "(64 word \<Rightarrow> 'v) \<Rightarrow> int64 \<Rightarrow> string \<Rightarrow> (string \<times> ('v::zero) MetricFamily) list \<Rightarrow> 'v Sample list" where
  "batch_samples f64 ts k families =
     map (\<lambda>(metricName, ty, metric). \<lparr>Timestamp = ts, Value = extract_value f64 ty metric\<rparr>)
       (filter (\<lambda>(metricName, ty, metric). seriesKey metricName metric = k) (instances families))"

fun appended_samples ::
  "(64 word \<Rightarrow> 'v) \<Rightarrow> clock \<Rightarrow> string \<Rightarrow> (string \<times> ('v::zero) MetricFamily) list list \<Rightarrow> 'v Sample list" where
  "appended_samples f64 clk k [] = []"
| "appended_samples f64 clk k (families # batches) =
     batch_samples f64 (readings clk (reads clk)) k families @
     appended_samples f64 (clk\<lparr>reads := Suc (reads clk)\<rparr>) k batches"

section \<open>Query Adapter\<close>

record 'v InMemorySeriesSet =
  ss_series :: "'v TimeSeries list"
  ss_current :: int

fun matchesLabels :: "Labels \<Rightarrow> Matcher list \<Rightarrow> bool" where
  "matchesLabels seriesLabels [] = True"
| "matchesLabels seriesLabels (matcher # matchers) =
     (let labelValue = Get seriesLabels (matcher_Name matcher)
      in if \<not> Matches matcher labelValue then False
         else matchesLabels seriesLabels matchers)"

text \<open>The inner loop of \<^verbatim>\<open>Select\<close>: the samples of the time range, in order.\<close>

definition filter_step :: "'v InMemoryQuerier \<Rightarrow> 'v Sample list \<Rightarrow> 'v Sample \<Rightarrow> 'v Sample list" where
  "filter_step q filtered sample =
     (if mint q \<le>s Timestamp sample \<and> Timestamp sample \<le>s maxt q
      then filtered @ [sample] else filtered)"

text \<open>The body of the outer loop of \<^verbatim>\<open>Select\<close>, for one series of the index.\<close>

definition select_step ::
  "'v InMemoryQuerier \<Rightarrow> Matcher list \<Rightarrow> 'v TimeSeries list \<Rightarrow> 'v TimeSeries \<Rightarrow> 'v TimeSeries list" where
  "select_step q matchers matchingSeries series =
     (if matchesLabels (SeriesLabels series) matchers
      then (let filteredSeries =
                  \<lparr>SeriesLabels = SeriesLabels series,
                   Samples = foldl (filter_step q) [] (Samples series)\<rparr>
            in if length (Samples filteredSeries) > 0
               then matchingSeries @ [filteredSeries] else matchingSeries)
      else matchingSeries)"

text \<open>
  \<^verbatim>\<open>Select\<close>. The order in which \<^verbatim>\<open>range q.store.series\<close> visits the index is not
  fixed by the language; it is the argument \<open>visit\<close>, the list of the keys in the order
  of the visit (each key of the index once).
\<close>

definition Select ::
  "'v InMemoryQuerier \<Rightarrow> string list \<Rightarrow> bool \<Rightarrow> Matcher list \<Rightarrow> 'v InMemorySeriesSet" where
  "Select q visit sortSeries matchers =
     (let matchingSeries = foldl (select_step q matchers) [] (List.map_filter (store q) visit);
          matchingSeries =
            (if sortSeries
             then sort_Slice (\<lambda>a b. Compare (SeriesLabels a) (SeriesLabels b) < 0) matchingSeries
             else matchingSeries)
      in \<lparr>ss_series = matchingSeries, ss_current = - 1\<rparr>)"

section \<open>Auxiliary notions and example data\<close>

text \<open>\<open>kept old new\<close> is the sample sequence of a series that had the samples \<open>old\<close>
  and has received the samples \<open>new\<close>; \<open>labels_of s k\<close> is the label set of the series with
  key \<open>k\<close>; \<open>add_instance\<close> is \<open>add_metric\<close> on an element of \<open>instances\<close>.\<close>

definition kept :: "'a list \<Rightarrow> 'a list \<Rightarrow> 'a list" where
  "kept old new = (if new = [] then old else most_recent 1000 (old @ new))"

definition labels_of :: "'v MetricStore \<Rightarrow> string \<Rightarrow> Labels option" where
  "labels_of s k = map_option SeriesLabels (s k)"

definition add_instance ::
  "(64 word \<Rightarrow> 'v) \<Rightarrow> int64 \<Rightarrow> 'v MetricStore \<Rightarrow> string \<times> MetricType \<times> ('v::zero) Metric \<Rightarrow> 'v MetricStore" where
  "add_instance f64 ts s inst = (case inst of (name, ty, m) \<Rightarrow> add_metric f64 ts name ty s m)"

text \<open>The data of the examples: values are real numbers and the clock returns 1000,
  1001, ... The conversion \<open>float64_of\<close> of the examples maps a count to the number it
  denotes, which is what Go's conversion does for counts below \<open>2^53\<close> (Go rounds larger
  ones); the examples have gauges only and never apply it. The two series are
  \<^verbatim>\<open>up{job="a"}\<close> and \<^verbatim>\<open>up{job="b"}\<close>, each with samples at the times 10, 20 and 30.\<close>

definition float64_of :: "64 word \<Rightarrow> real" where
  "float64_of n = real (unat n)"

definition clock0 :: clock where
  "clock0 = \<lparr>readings = (\<lambda>n. 1000 + of_nat n), reads = 0\<rparr>"

definition up_job :: "string \<Rightarrow> real TimeSeries" where
  "up_job j =
     \<lparr>SeriesLabels = [\<lparr>label_Name = ''__name__'', label_Value = ''up''\<rparr>,
                      \<lparr>label_Name = ''job'', label_Value = j\<rparr>],
      Samples = [\<lparr>Timestamp = 10, Value = 1\<rparr>, \<lparr>Timestamp = 20, Value = 2\<rparr>,
                 \<lparr>Timestamp = 30, Value = 3\<rparr>]\<rparr>"

definition up_store :: "real MetricStore" where
  "up_store = [Labels_String (SeriesLabels (up_job ''a'')) \<mapsto> up_job ''a'',
               Labels_String (SeriesLabels (up_job ''b'')) \<mapsto> up_job ''b'']"

definition job_equals :: "string \<Rightarrow> Matcher" where
  "job_equals j =
     \<lparr>matcher_Type = MatchEqual, matcher_Name = ''job'', matcher_Value = j,
      re_MatchString = (\<lambda>s. False)\<rparr>"

text \<open>A gauge instance with the given label pairs and value.\<close>

definition gauge :: "(string \<times> string) list \<Rightarrow> real \<Rightarrow> real Metric" where
  "gauge pairs v =
     \<lparr>metric_Label = map (\<lambda>(n, w). \<lparr>GetName = n, GetValue = w\<rparr>) pairs,
      Counter = None, Gauge = Some v, Histogram = None, Summary = None, Untyped = None\<rparr>"

section \<open>Properties of the Result Materializer\<close>

lemma foldl_vector_step:
  "foldl vector_step acc v =
     acc @ map (\<lambda>sample. \<lparr>MetricName = Get (sample_Metric sample) ''__name__'',
                            Labels = convert_labels (sample_Metric sample),
                            MR_Value = sample_F sample,
                            MR_Timestamp = sample_T sample\<rparr>) v"
  by (induction v arbitrary: acc) (simp_all add: vector_step_def)

lemma matrix_step_empty: "Floats series = [] \<Longrightarrow> matrix_step acc series = acc"
  by (simp add: matrix_step_def)

lemma matrix_step_nonempty:
  "Floats series \<noteq> [] \<Longrightarrow>
   matrix_step acc series =
     acc @ [\<lparr>MetricName = Get (series_Metric series) ''__name__'',
             Labels = convert_labels (series_Metric series),
             MR_Value = F (last (Floats series)),
             MR_Timestamp = T (last (Floats series))\<rparr>]"
  by (simp add: matrix_step_def Let_def last_conv_nth)

lemma foldl_matrix_step:
  "foldl matrix_step acc v =
     acc @ map (\<lambda>series. \<lparr>MetricName = Get (series_Metric series) ''__name__'',
                            Labels = convert_labels (series_Metric series),
                            MR_Value = F (last (Floats series)),
                            MR_Timestamp = T (last (Floats series))\<rparr>)
             (filter (\<lambda>series. Floats series \<noteq> []) v)"
proof (induction v arbitrary: acc)
  case Nil
  show ?case by simp
next
  case (Cons series v)
  show ?case
  proof (cases "Floats series = []")
    case True
    then show ?thesis using Cons.IH [of acc] by (simp add: matrix_step_empty)
  next
    case False
    then show ?thesis
      using Cons.IH [of "matrix_step acc series"] by (simp add: matrix_step_nonempty)
  qed
qed

text \<open>The label map built by the conversion loop: its keys are the names of all the
  labels, and a name is mapped to the value of its last occurrence.\<close>

lemma foldl_upd_map_of:
  "foldl (\<lambda>labels label. labels(label_Name label \<mapsto> label_Value label)) m0 m =
     m0 ++ map_of (rev (map (\<lambda>l. (label_Name l, label_Value l)) m))"
  by (induction m arbitrary: m0) (simp_all add: map_add_upd_left)

lemma convert_labels_map_of:
  "convert_labels m = map_of (rev (map (\<lambda>l. (label_Name l, label_Value l)) m))"
  by (simp add: convert_labels_def foldl_upd_map_of)

lemma dom_convert_labels: "dom (convert_labels m) = label_Name ` set m"
  by (simp add: convert_labels_map_of dom_map_of_conv_image_fst image_image)

text \<open>
  Claim C1, as the code has it. For an instant vector the materializer returns no error
  and exactly one row per sample, in order. The row's metric name is the value of the
  sample's \<open>__name__\<close> label (the empty string when there is none), its value and
  timestamp are the sample's, and its label map holds every label of the sample: its
  keys are all the label names, so \<open>__name__\<close> is among them whenever the sample
  carries it.
\<close>

theorem vector_one_row_per_sample:
  "convertPromQLResult (result\<lparr>Result_Value := promql_Vector v\<rparr>) = (rows, err) \<Longrightarrow>
   err = None \<and> length rows = length v \<and>
   (\<forall>i < length v.
      MetricName (rows ! i) = Get (sample_Metric (v ! i)) ''__name__'' \<and>
      MR_Value (rows ! i) = sample_F (v ! i) \<and>
      MR_Timestamp (rows ! i) = sample_T (v ! i) \<and>
      dom (Labels (rows ! i)) = label_Name ` set (sample_Metric (v ! i)) \<and>
      Labels (rows ! i) = map_of (rev (map (\<lambda>l. (label_Name l, label_Value l)) (sample_Metric (v ! i)))))"
proof -
  assume run: "convertPromQLResult (result\<lparr>Result_Value := promql_Vector v\<rparr>) = (rows, err)"
  then have err: "err = None"
    and rows: "rows = map (\<lambda>sample. \<lparr>MetricName = Get (sample_Metric sample) ''__name__'',
                            Labels = convert_labels (sample_Metric sample),
                            MR_Value = sample_F sample,
                            MR_Timestamp = sample_T sample\<rparr>) v"
    by (auto simp: foldl_vector_step)
  have "dom (Labels (rows ! i)) = label_Name ` set (sample_Metric (v ! i))" if "i < length v" for i
    using that by (simp add: rows dom_convert_labels)
  moreover have "Labels (rows ! i) =
      map_of (rev (map (\<lambda>l. (label_Name l, label_Value l)) (sample_Metric (v ! i))))"
    if "i < length v" for i
    using that by (simp add: rows convert_labels_map_of)
  ultimately show ?thesis
    using err by (simp add: rows)
qed

theorem vector_one_row_per_sample_witness:
  "(let v = [\<lparr>sample_Metric = [\<lparr>label_Name = ''__name__'', label_Value = ''up''\<rparr>,
                              \<lparr>label_Name = ''job'', label_Value = ''a''\<rparr>],
             sample_T = 10, sample_F = (1::real)\<rparr>];
        rows = fst (convertPromQLResult \<lparr>Result_Err = None, Result_Value = promql_Vector v\<rparr>)
    in length rows = 1 \<and> MetricName (rows ! 0) = ''up'' \<and>
       dom (Labels (rows ! 0)) = {''__name__'', ''job''})"
  using vector_one_row_per_sample
    [where result = "\<lparr>Result_Err = None, Result_Value = promql_nil\<rparr>"
       and v = "[\<lparr>sample_Metric = [\<lparr>label_Name = ''__name__'', label_Value = ''up''\<rparr>,
                              \<lparr>label_Name = ''job'', label_Value = ''a''\<rparr>],
             sample_T = 10, sample_F = (1::real)\<rparr>]"
       and rows = "fst (convertPromQLResult \<lparr>Result_Err = None, Result_Value = promql_Vector
           [\<lparr>sample_Metric = [\<lparr>label_Name = ''__name__'', label_Value = ''up''\<rparr>,
                              \<lparr>label_Name = ''job'', label_Value = ''a''\<rparr>],
             sample_T = 10, sample_F = (1::real)\<rparr>]\<rparr>)"
       and err = "snd (convertPromQLResult \<lparr>Result_Err = None, Result_Value = promql_Vector
           [\<lparr>sample_Metric = [\<lparr>label_Name = ''__name__'', label_Value = ''up''\<rparr>,
                              \<lparr>label_Name = ''job'', label_Value = ''a''\<rparr>],
             sample_T = 10, sample_F = (1::real)\<rparr>]\<rparr>)"]
  by (simp add: Let_def insert_commute)

text \<open>
  Claim C1 as stated says the emitted label map leaves out the metric-name label. For a
  vector of one sample with the labels \<open>__name__ = up\<close> and \<open>job = a\<close>, the row's label
  map has the entry \<open>__name__ \<mapsto> up\<close>.
\<close>

theorem vector_labels_keep_name_counterexample:
  "Labels (hd (fst (convertPromQLResult
      \<lparr>Result_Err = None,
       Result_Value = promql_Vector
         [\<lparr>sample_Metric = [\<lparr>label_Name = ''__name__'', label_Value = ''up''\<rparr>,
                             \<lparr>label_Name = ''job'', label_Value = ''a''\<rparr>],
           sample_T = 10, sample_F = (1::real)\<rparr>]\<rparr>))) ''__name__'' = Some ''up''"
  by (simp add: vector_step_def convert_labels_def)

text \<open>
  Claim C5. For a range matrix the materializer returns no error and at most one row
  per series: the rows are, in order, those of the series with a non-empty float
  sequence, and each carries the value and the timestamp of the last point of its
  series' sequence.
\<close>

theorem matrix_latest_point:
  "convertPromQLResult (result\<lparr>Result_Value := promql_Matrix v\<rparr>) = (rows, err) \<Longrightarrow>
   err = None \<and> length rows \<le> length v \<and>
   rows = map (\<lambda>series. \<lparr>MetricName = Get (series_Metric series) ''__name__'',
                           Labels = convert_labels (series_Metric series),
                           MR_Value = F (last (Floats series)),
                           MR_Timestamp = T (last (Floats series))\<rparr>)
            (filter (\<lambda>series. Floats series \<noteq> []) v)"
  by (auto simp: foldl_matrix_step)

theorem matrix_latest_point_witness:
  "convertPromQLResult
     \<lparr>Result_Err = None,
      Result_Value = promql_Matrix
        [\<lparr>series_Metric = [\<lparr>label_Name = ''__name__'', label_Value = ''up''\<rparr>],
          Floats = [\<lparr>T = 10, F = (1::real)\<rparr>, \<lparr>T = 20, F = 2\<rparr>, \<lparr>T = 30, F = 5\<rparr>]\<rparr>]\<rparr>
   = ([\<lparr>MetricName = ''up'',
        Labels = convert_labels [\<lparr>label_Name = ''__name__'', label_Value = ''up''\<rparr>],
        MR_Value = 5, MR_Timestamp = 30\<rparr>], None)"
  using matrix_latest_point
    [where result = "\<lparr>Result_Err = None, Result_Value = promql_nil\<rparr>"
       and v = "[\<lparr>series_Metric = [\<lparr>label_Name = ''__name__'', label_Value = ''up''\<rparr>],
          Floats = [\<lparr>T = 10, F = (1::real)\<rparr>, \<lparr>T = 20, F = 2\<rparr>, \<lparr>T = 30, F = 5\<rparr>]\<rparr>]"
       and rows = "fst (convertPromQLResult
     \<lparr>Result_Err = None,
      Result_Value = promql_Matrix
        [\<lparr>series_Metric = [\<lparr>label_Name = ''__name__'', label_Value = ''up''\<rparr>],
          Floats = [\<lparr>T = 10, F = (1::real)\<rparr>, \<lparr>T = 20, F = 2\<rparr>, \<lparr>T = 30, F = 5\<rparr>]\<rparr>]\<rparr>)"
       and err = "snd (convertPromQLResult
     \<lparr>Result_Err = None,
      Result_Value = promql_Matrix
        [\<lparr>series_Metric = [\<lparr>label_Name = ''__name__'', label_Value = ''up''\<rparr>],
          Floats = [\<lparr>T = 10, F = (1::real)\<rparr>, \<lparr>T = 20, F = 2\<rparr>, \<lparr>T = 30, F = 5\<rparr>]\<rparr>]\<rparr>)"]
  by (simp add: prod_eq_iff)

text \<open>
  Claim C6. A result value that is a vector, a scalar or a matrix is converted without
  error; every other result value (a string result, or no value at all) yields no rows
  and the unsupported-result error.
\<close>

theorem unsupported_result_type_error:
  "(is_Vector (Result_Value result) \<or> is_Scalar (Result_Value result) \<or> is_Matrix (Result_Value result)
      \<longrightarrow> snd (convertPromQLResult result) = None) \<and>
   (\<not> is_Vector (Result_Value result) \<and> \<not> is_Scalar (Result_Value result) \<and>
    \<not> is_Matrix (Result_Value result)
      \<longrightarrow> (\<exists>name. convertPromQLResult result = ([], Some (UnsupportedResultType name))))"
  by (cases "Result_Value result") simp_all

theorem unsupported_result_type_error_witness:
  "convertPromQLResult \<lparr>Result_Err = None, Result_Value = (promql_String 7 ''hello'' :: real promql_Value)\<rparr>
     = ([], Some (UnsupportedResultType ''promql.String'')) \<and>
   (\<exists>name. convertPromQLResult \<lparr>Result_Err = None, Result_Value = (promql_nil :: real promql_Value)\<rparr>
     = ([], Some (UnsupportedResultType name)))"
  using unsupported_result_type_error
    [of "\<lparr>Result_Err = None, Result_Value = (promql_nil :: real promql_Value)\<rparr>"]
  by simp

text \<open>
  Claim C9. A series of a range matrix whose float sequence is empty contributes
  nothing: the conversion returns what it returns for the matrix without that series,
  it reports no error, and the number of rows is strictly less than the number of
  series.
\<close>

theorem matrix_empty_series_no_row:
  "Floats series = [] \<Longrightarrow>
   convertPromQLResult (result\<lparr>Result_Value := promql_Matrix (pre @ series # post)\<rparr>) =
     convertPromQLResult (result\<lparr>Result_Value := promql_Matrix (pre @ post)\<rparr>) \<and>
   snd (convertPromQLResult (result\<lparr>Result_Value := promql_Matrix (pre @ series # post)\<rparr>)) = None \<and>
   length (fst (convertPromQLResult (result\<lparr>Result_Value := promql_Matrix (pre @ series # post)\<rparr>)))
     < length (pre @ series # post)"
proof -
  assume empty: "Floats series = []"
  let ?keep = "filter (\<lambda>s. Floats s \<noteq> [])"
  have same: "?keep (pre @ series # post) = ?keep (pre @ post)"
    using empty by simp
  have rows: "foldl matrix_step [] (pre @ series # post) = foldl matrix_step [] (pre @ post)"
    unfolding foldl_matrix_step same ..
  have "length (foldl matrix_step [] (pre @ post)) = length (?keep (pre @ post))"
    unfolding foldl_matrix_step by simp
  also have "\<dots> \<le> length (pre @ post)"
    by (rule length_filter_le)
  finally have "length (foldl matrix_step [] (pre @ series # post)) < length (pre @ series # post)"
    unfolding rows by simp
  then show ?thesis
    using rows by simp
qed

theorem matrix_empty_series_no_row_witness:
  "convertPromQLResult
     \<lparr>Result_Err = None,
      Result_Value = promql_Matrix
        [\<lparr>series_Metric = [\<lparr>label_Name = ''__name__'', label_Value = ''up''\<rparr>],
          Floats = ([] :: real FPoint list)\<rparr>]\<rparr> = ([], None)"
  using matrix_empty_series_no_row
    [where series = "\<lparr>series_Metric = [\<lparr>label_Name = ''__name__'', label_Value = ''up''\<rparr>],
          Floats = ([] :: real FPoint list)\<rparr>"
       and pre = "[]" and post = "[]"
       and result = "\<lparr>Result_Err = None, Result_Value = promql_nil\<rparr>"]
  by simp

section \<open>Properties of the series iterator\<close>

lemma seek_from_Some:
  "seek_from i xs t = Some k \<Longrightarrow>
     i \<le> k \<and> k - i < length xs \<and> t \<le>s Timestamp (xs ! (k - i)) \<and>
     (\<forall>j < k - i. \<not> t \<le>s Timestamp (xs ! j))"
proof (induction xs arbitrary: i)
  case Nil
  then show ?case by simp
next
  case (Cons sample rest)
  show ?case
  proof (cases "t \<le>s Timestamp sample")
    case True
    with Cons.prems show ?thesis by simp
  next
    case False
    with Cons.prems have rec: "seek_from (Suc i) rest t = Some k" by simp
    from Cons.IH [OF rec] have le: "Suc i \<le> k" and len: "k - Suc i < length rest"
      and hit: "t \<le>s Timestamp (rest ! (k - Suc i))"
      and before: "\<forall>j < k - Suc i. \<not> t \<le>s Timestamp (rest ! j)"
      by simp_all
    from le have idx: "k - i = Suc (k - Suc i)" by simp
    have "\<not> t \<le>s Timestamp ((sample # rest) ! j)" if "j < k - i" for j
      using that False before idx by (cases j) simp_all
    then show ?thesis
      using le len hit idx by simp
  qed
qed

lemma seek_from_None:
  "seek_from i xs t = None \<longleftrightarrow> (\<forall>x \<in> set xs. \<not> t \<le>s Timestamp x)"
  by (induction xs arbitrary: i) simp_all

text \<open>
  Claim C8. \<^verbatim>\<open>Seek(t)\<close> leaves the sample sequence as it is. When some sample has a
  timestamp at or after \<open>t\<close>, it reports a value (\<^verbatim>\<open>ValFloat\<close>) and the position is
  the index of the first such sample: that sample's timestamp is at or after \<open>t\<close> and
  every earlier one is before \<open>t\<close>. When there is none, it reports exhaustion
  (\<^verbatim>\<open>ValNone\<close>) and the position is the length of the sequence, past the end.
\<close>

theorem Seek_first_at_or_after:
  "Seek it t = (vt, it') \<Longrightarrow>
   samples it' = samples it \<and>
   (if \<exists>x \<in> set (samples it). t \<le>s Timestamp x
    then vt = ValFloat \<and> 0 \<le> current it' \<and> current it' < int (length (samples it)) \<and>
         t \<le>s Timestamp (samples it ! nat (current it')) \<and>
         (\<forall>j < nat (current it'). \<not> t \<le>s Timestamp (samples it ! j))
    else vt = ValNone \<and> current it' = int (length (samples it)))"
proof (cases "seek_from 0 (samples it) t")
  case None
  assume "Seek it t = (vt, it')"
  with None have "vt = ValNone" and "it' = it\<lparr>current := int (length (samples it))\<rparr>"
    by (simp_all add: Seek_def)
  moreover from None have "\<not> (\<exists>x \<in> set (samples it). t \<le>s Timestamp x)"
    by (simp add: seek_from_None)
  ultimately show ?thesis by simp
next
  case (Some k)
  assume "Seek it t = (vt, it')"
  with Some have res: "vt = ValFloat" "it' = it\<lparr>current := int k\<rparr>"
    by (simp_all add: Seek_def)
  from seek_from_Some [OF Some] have k: "k < length (samples it)"
    "t \<le>s Timestamp (samples it ! k)" "\<forall>j < k. \<not> t \<le>s Timestamp (samples it ! j)"
    by simp_all
  from k(1,2) have "\<exists>x \<in> set (samples it). t \<le>s Timestamp x"
    using nth_mem by blast
  then show ?thesis
    using res k by simp
qed

theorem Seek_first_at_or_after_witness:
  "Seek \<lparr>samples = [\<lparr>Timestamp = 10, Value = (1::real)\<rparr>, \<lparr>Timestamp = 20, Value = 2\<rparr>,
                    \<lparr>Timestamp = 30, Value = 3\<rparr>], current = 2\<rparr> 15
     = (ValFloat, \<lparr>samples = [\<lparr>Timestamp = 10, Value = (1::real)\<rparr>, \<lparr>Timestamp = 20, Value = 2\<rparr>,
                    \<lparr>Timestamp = 30, Value = 3\<rparr>], current = 1\<rparr>) \<and>
   (15::int64) \<le>s 20 \<and> \<not> (15::int64) \<le>s 10"
  using Seek_first_at_or_after
    [where it = "\<lparr>samples = [\<lparr>Timestamp = 10, Value = (1::real)\<rparr>, \<lparr>Timestamp = 20, Value = 2\<rparr>,
                    \<lparr>Timestamp = 30, Value = 3\<rparr>], current = 2\<rparr>"
       and t = 15 and vt = ValFloat
       and it' = "\<lparr>samples = [\<lparr>Timestamp = 10, Value = (1::real)\<rparr>, \<lparr>Timestamp = 20, Value = 2\<rparr>,
                    \<lparr>Timestamp = 30, Value = 3\<rparr>], current = 1\<rparr>"]
  by (simp add: Seek_def)

lemma index_in_range:
  "0 \<le> i \<Longrightarrow> i < int (length xs) \<Longrightarrow> index xs i = Some (xs ! nat i)"
  by (simp add: index_def)

text \<open>
  Claim C10. \<^verbatim>\<open>At\<close> and \<^verbatim>\<open>AtT\<close> never fail: at a position before the first sample
  or past the last one they return the pair \<open>(0, 0)\<close> and the timestamp \<open>0\<close>, at a
  position inside the sequence they return the sample there, and in no position does
  the slice read go out of range.
\<close>

theorem At_total:
  "(current it < 0 \<or> int (length (samples it)) \<le> current it
      \<longrightarrow> At it = Some (0, 0) \<and> AtT it = Some 0) \<and>
   (0 \<le> current it \<and> current it < int (length (samples it))
      \<longrightarrow> At it = Some (Timestamp (samples it ! nat (current it)), Value (samples it ! nat (current it))) \<and>
          AtT it = Some (Timestamp (samples it ! nat (current it)))) \<and>
   At it \<noteq> None \<and> AtT it \<noteq> None"
  by (auto simp: At_def AtT_def index_in_range)

theorem At_total_witness:
  "At \<lparr>samples = [\<lparr>Timestamp = 10, Value = (1::real)\<rparr>], current = -1\<rparr> = Some (0, 0) \<and>
   AtT \<lparr>samples = [\<lparr>Timestamp = 10, Value = (1::real)\<rparr>], current = -1\<rparr> = Some 0 \<and>
   At \<lparr>samples = [\<lparr>Timestamp = 10, Value = (1::real)\<rparr>], current = 1\<rparr> = Some (0, 0) \<and>
   AtT \<lparr>samples = [\<lparr>Timestamp = 10, Value = (1::real)\<rparr>], current = 1\<rparr> = Some 0 \<and>
   At \<lparr>samples = [\<lparr>Timestamp = 10, Value = (1::real)\<rparr>], current = 0\<rparr> = Some (10, 1)"
  using At_total [of "\<lparr>samples = [\<lparr>Timestamp = 10, Value = (1::real)\<rparr>], current = -1\<rparr>"]
    At_total [of "\<lparr>samples = [\<lparr>Timestamp = 10, Value = (1::real)\<rparr>], current = 1\<rparr>"]
    At_total [of "\<lparr>samples = [\<lparr>Timestamp = 10, Value = (1::real)\<rparr>], current = 0\<rparr>"]
  by simp

section \<open>Properties of sorting\<close>

lemma mset_insert_back: "mset (insert_back lessf x rs) = add_mset x (mset rs)"
  by (induction rs) simp_all

lemma mset_foldl_insert_back:
  "mset (foldl (\<lambda>rs x. insert_back lessf x rs) acc xs) = mset acc + mset xs"
  by (induction xs arbitrary: acc) (simp_all add: mset_insert_back)

lemma mset_sort_Slice: "mset (sort_Slice lessf xs) = mset xs"
  by (simp add: sort_Slice_def mset_foldl_insert_back)

section \<open>Properties of the Query Adapter\<close>

lemma Get_absent: "name \<notin> label_Name ` set ls \<Longrightarrow> Get ls name = ''''"
  by (induction ls) auto

lemma matchesLabels_iff:
  "matchesLabels seriesLabels matchers \<longleftrightarrow>
     (\<forall>m \<in> set matchers. Matches m (Get seriesLabels (matcher_Name m)))"
  by (induction matchers) (simp_all add: Let_def)

lemma foldl_filter_step:
  "foldl (filter_step q) acc xs =
     acc @ filter (\<lambda>x. mint q \<le>s Timestamp x \<and> Timestamp x \<le>s maxt q) xs"
  by (induction xs arbitrary: acc) (simp_all add: filter_step_def)

lemma select_step_eq:
  "select_step q matchers acc series =
     (if (\<forall>m \<in> set matchers. Matches m (Get (SeriesLabels series) (matcher_Name m))) \<and>
         (\<exists>x \<in> set (Samples series). mint q \<le>s Timestamp x \<and> Timestamp x \<le>s maxt q)
      then acc @ [\<lparr>SeriesLabels = SeriesLabels series,
                    Samples = filter (\<lambda>x. mint q \<le>s Timestamp x \<and> Timestamp x \<le>s maxt q)
                                (Samples series)\<rparr>]
      else acc)"
  by (auto simp: select_step_def matchesLabels_iff foldl_filter_step filter_empty_conv Let_def)

lemma foldl_select_step:
  "foldl (select_step q matchers) acc sers =
     acc @ map (\<lambda>series. \<lparr>SeriesLabels = SeriesLabels series,
                    Samples = filter (\<lambda>x. mint q \<le>s Timestamp x \<and> Timestamp x \<le>s maxt q)
                                (Samples series)\<rparr>)
            (filter (\<lambda>series.
               (\<forall>m \<in> set matchers. Matches m (Get (SeriesLabels series) (matcher_Name m))) \<and>
               (\<exists>x \<in> set (Samples series). mint q \<le>s Timestamp x \<and> Timestamp x \<le>s maxt q)) sers)"
proof (induction sers arbitrary: acc)
  case Nil
  show ?case by simp
next
  case (Cons series sers)
  have step: "foldl (select_step q matchers) acc (series # sers) =
      foldl (select_step q matchers) (select_step q matchers acc series) sers"
    by simp
  show ?case
    unfolding step Cons.IH by (simp add: select_step_eq)
qed

lemma map_filter_visit:
  assumes "set visit = dom m"
  shows "List.map_filter m visit = map (\<lambda>k. the (m k)) visit"
proof -
  have "filter (\<lambda>k. m k \<noteq> None) visit = visit"
    using assms by (auto simp: filter_id_conv)
  then show ?thesis
    by (simp add: List.map_filter_def comp_def)
qed

lemma mset_visit:
  assumes "distinct visit" and "set visit = dom m"
  shows "mset (List.map_filter m visit) = image_mset (\<lambda>k. the (m k)) (mset_set (dom m))"
proof -
  have keys: "mset visit = mset_set (dom m)"
    using assms mset_set_set by metis
  have "mset (List.map_filter m visit) = image_mset (\<lambda>k. the (m k)) (mset visit)"
    unfolding map_filter_visit [OF assms(2)] by simp
  then show ?thesis
    unfolding keys .
qed

text \<open>
  Claim C4. Let the index be visited in any order, each key once. The series that
  \<^verbatim>\<open>Select\<close> returns are, as a multiset (with or without the final sort), exactly these:
  for each series of the index on which every matcher holds for the value of the
  matcher's label and which has at least one sample with \<open>mint \<le> t \<le> maxt\<close>, the
  series with the same labels and with exactly its samples of that range, in their
  order. No returned series is empty. The value of a label that a series does not have
  is the empty string.
\<close>

theorem Select_matching_in_range:
  assumes "distinct visit" and "set visit = dom (store q)"
  shows "mset (ss_series (Select q visit sortSeries matchers)) =
           image_mset
             (\<lambda>series. \<lparr>SeriesLabels = SeriesLabels series,
                Samples = filter (\<lambda>x. mint q \<le>s Timestamp x \<and> Timestamp x \<le>s maxt q)
                            (Samples series)\<rparr>)
             (filter_mset
                (\<lambda>series.
                   (\<forall>m \<in> set matchers. Matches m (Get (SeriesLabels series) (matcher_Name m))) \<and>
                   (\<exists>x \<in> set (Samples series). mint q \<le>s Timestamp x \<and> Timestamp x \<le>s maxt q))
                (image_mset (\<lambda>k. the (store q k)) (mset_set (dom (store q))))) \<and>
         (\<forall>series \<in> set (ss_series (Select q visit sortSeries matchers)). Samples series \<noteq> []) \<and>
         (\<forall>ls name. name \<notin> label_Name ` set ls \<longrightarrow> Get ls name = '''')"
proof -
  let ?found = "foldl (select_step q matchers) [] (List.map_filter (store q) visit)"
  have res: "mset (ss_series (Select q visit sortSeries matchers)) = mset ?found"
    by (simp add: Select_def Let_def mset_sort_Slice)
  have found: "mset ?found =
           image_mset
             (\<lambda>series. \<lparr>SeriesLabels = SeriesLabels series,
                Samples = filter (\<lambda>x. mint q \<le>s Timestamp x \<and> Timestamp x \<le>s maxt q)
                            (Samples series)\<rparr>)
             (filter_mset
                (\<lambda>series.
                   (\<forall>m \<in> set matchers. Matches m (Get (SeriesLabels series) (matcher_Name m))) \<and>
                   (\<exists>x \<in> set (Samples series). mint q \<le>s Timestamp x \<and> Timestamp x \<le>s maxt q))
                (image_mset (\<lambda>k. the (store q k)) (mset_set (dom (store q)))))"
    unfolding foldl_select_step
    by (simp flip: mset_visit [OF assms] mset_filter mset_map)
  have "Samples series \<noteq> []" if "series \<in># mset ?found" for series
    using that unfolding foldl_select_step by (auto simp: filter_empty_conv)
  then have "\<forall>series \<in> set (ss_series (Select q visit sortSeries matchers)). Samples series \<noteq> []"
    using res by (metis set_mset_mset)
  then show ?thesis
    using res found Get_absent by simp
qed


theorem Select_matching_in_range_witness:
  "ss_series (Select \<lparr>store = up_store, mint = 15, maxt = 25\<rparr>
       [Labels_String (SeriesLabels (up_job ''b'')), Labels_String (SeriesLabels (up_job ''a''))]
       True [job_equals ''a''])
     = [\<lparr>SeriesLabels = SeriesLabels (up_job ''a''),
         Samples = [\<lparr>Timestamp = 20, Value = 2\<rparr>]\<rparr>]"
proof -
  let ?ka = "Labels_String (SeriesLabels (up_job ''a''))"
  let ?kb = "Labels_String (SeriesLabels (up_job ''b''))"
  have ne: "?kb \<noteq> ?ka"
    by (simp add: up_job_def Labels_String_def Quote_def quote_char_def write_label_def legacy_letter_def legacy_digit_def)
  then have d: "distinct [?kb, ?ka]" by simp
  have v: "set [?kb, ?ka] = dom (store \<lparr>store = up_store, mint = 15, maxt = 25\<rparr>)"
    by (auto simp: up_store_def)
  have a: "up_store ?ka = Some (up_job ''a'')" and b: "up_store ?kb = Some (up_job ''b'')"
    using ne by (simp_all add: up_store_def)
  have found: "List.map_filter up_store [?kb, ?ka] = [up_job ''b'', up_job ''a'']"
    by (simp add: List.map_filter_def a b)
  have sa: "select_step \<lparr>store = up_store, mint = 15, maxt = 25\<rparr> [job_equals ''a''] acc (up_job ''a'')
      = acc @ [\<lparr>SeriesLabels = SeriesLabels (up_job ''a''), Samples = [\<lparr>Timestamp = 20, Value = 2\<rparr>]\<rparr>]" for acc
    by (simp add: select_step_def up_job_def job_equals_def Matches_def filter_step_def)
  have sb: "select_step \<lparr>store = up_store, mint = 15, maxt = 25\<rparr> [job_equals ''a''] acc (up_job ''b'') = acc" for acc
    by (simp add: select_step_def up_job_def job_equals_def Matches_def)
  have "foldl (select_step \<lparr>store = up_store, mint = 15, maxt = 25\<rparr> [job_equals ''a'']) []
          (List.map_filter (store \<lparr>store = up_store, mint = 15, maxt = 25\<rparr>) [?kb, ?ka])
      = [\<lparr>SeriesLabels = SeriesLabels (up_job ''a''), Samples = [\<lparr>Timestamp = 20, Value = 2\<rparr>]\<rparr>]"
    unfolding InMemoryQuerier.simps found by (simp add: sa sb)
  then have res: "ss_series (Select \<lparr>store = up_store, mint = 15, maxt = 25\<rparr> [?kb, ?ka]
       True [job_equals ''a''])
     = [\<lparr>SeriesLabels = SeriesLabels (up_job ''a''), Samples = [\<lparr>Timestamp = 20, Value = 2\<rparr>]\<rparr>]"
    unfolding Select_def Let_def by (simp add: sort_Slice_def)
  show ?thesis
    using Select_matching_in_range [OF d v, of True "[job_equals ''a'']"] res
    by simp
qed

section \<open>Properties of sorting by label name\<close>

lemma set_insert_back: "set (insert_back lessf x rs) = insert x (set rs)"
  by (induction rs) auto

lemma insert_back_descending:
  fixes key :: "'a \<Rightarrow> 'k::linorder"
  assumes "sorted_wrt (\<lambda>a b. key b \<le> key a) rs"
  shows "sorted_wrt (\<lambda>a b. key b \<le> key a) (insert_back (\<lambda>a b. key a < key b) x rs)"
  using assms
proof (induction rs)
  case Nil
  show ?case by simp
next
  case (Cons y rs)
  show ?case
  proof (cases "key x < key y")
    case True
    with Cons show ?thesis
      by (auto simp: set_insert_back)
  next
    case False
    with Cons.prems show ?thesis
      by auto
  qed
qed

lemma foldl_insert_back_descending:
  fixes key :: "'a \<Rightarrow> 'k::linorder"
  assumes "sorted_wrt (\<lambda>a b. key b \<le> key a) acc"
  shows "sorted_wrt (\<lambda>a b. key b \<le> key a)
           (foldl (\<lambda>rs x. insert_back (\<lambda>a b. key a < key b) x rs) acc xs)"
  using assms by (induction xs arbitrary: acc) (simp_all add: insert_back_descending)

lemma sorted_sort_Slice:
  fixes key :: "'a \<Rightarrow> 'k::linorder"
  shows "sorted (map key (sort_Slice (\<lambda>a b. key a < key b) xs))"
proof -
  have "sorted_wrt (\<lambda>a b. key b \<le> key a)
          (foldl (\<lambda>rs x. insert_back (\<lambda>a b. key a < key b) x rs) [] xs)"
    by (rule foldl_insert_back_descending) simp
  then show ?thesis
    by (simp add: sort_Slice_def sorted_map sorted_wrt_rev)
qed

text \<open>A list with pairwise distinct keys has one arrangement sorted by the key.\<close>

lemma sorted_by_key_unique:
  fixes key :: "'a \<Rightarrow> 'k::linorder"
  assumes perm: "mset ys = mset xs"
    and dist: "distinct (map key xs)"
    and sx: "sorted (map key xs)" and sy: "sorted (map key ys)"
  shows "ys = xs"
proof -
  from perm have keys: "mset (map key ys) = mset (map key xs)" by simp
  then have dy: "distinct (map key ys)"
    using dist mset_eq_imp_distinct_iff by blast
  from keys have "set (map key ys) = set (map key xs)"
    by (rule mset_eq_setD)
  with sx sy dist dy have same: "map key ys = map key xs"
    by (simp add: sorted_distinct_set_unique)
  from perm have "set ys = set xs" by (rule mset_eq_setD)
  moreover from dist have "inj_on key (set xs)" by (simp add: distinct_map)
  ultimately have "inj_on key (set ys \<union> set xs)" by simp
  with same show ?thesis by (rule map_inj_on)
qed

text \<open>So every sorting procedure agrees with \<open>sort_Slice\<close> on such a list.\<close>

lemma sort_Slice_unique:
  fixes key :: "'a \<Rightarrow> 'k::linorder"
  assumes "mset ys = mset xs" and "distinct (map key xs)" and "sorted (map key ys)"
  shows "ys = sort_Slice (\<lambda>a b. key a < key b) xs"
proof -
  let ?zs = "sort_Slice (\<lambda>a b. key a < key b) xs"
  have "mset ys = mset ?zs" using assms(1) by (simp add: mset_sort_Slice)
  moreover have "distinct (map key ?zs)"
  proof -
    have "mset (map key ?zs) = mset (map key xs)" by (simp add: mset_sort_Slice)
    then show ?thesis using assms(2) mset_eq_imp_distinct_iff by blast
  qed
  ultimately show ?thesis
    using sorted_sort_Slice [of key xs] assms(3) by (intro sorted_by_key_unique)
qed

lemma sort_Slice_permutation:
  fixes key :: "'a \<Rightarrow> 'k::linorder"
  assumes "mset xs' = mset xs" and "distinct (map key xs)"
  shows "sort_Slice (\<lambda>a b. key a < key b) xs' = sort_Slice (\<lambda>a b. key a < key b) xs"
  using assms sorted_sort_Slice [of key xs']
  by (intro sort_Slice_unique) (simp_all add: mset_sort_Slice)

lemma build_labels_permutation:
  assumes "mset (metric_Label m') = mset (metric_Label m)"
    and "distinct (''__name__'' # map GetName (metric_Label m))"
  shows "build_labels name m' = build_labels name m"
proof -
  let ?conv = "\<lambda>label. \<lparr>label_Name = GetName label, label_Value = GetValue label\<rparr>"
  let ?nm = "\<lparr>label_Name = ''__name__'', label_Value = name\<rparr>"
  have "mset (map ?conv (metric_Label m')) = mset (map ?conv (metric_Label m))"
    using assms(1) by simp
  then have "mset (?nm # map ?conv (metric_Label m')) = mset (?nm # map ?conv (metric_Label m))"
    by simp
  moreover have "distinct (map label_Name (?nm # map ?conv (metric_Label m)))"
    using assms(2) by (simp add: comp_def)
  ultimately show ?thesis
    unfolding build_labels_def by (rule sort_Slice_permutation)
qed

section \<open>Properties of ingestion\<close>

subsection \<open>Retention\<close>

lemma retain_most_recent: "retain xs = most_recent 1000 xs"
  by (simp add: retain_def most_recent_def)

lemma most_recent_append_most_recent:
  "most_recent n (most_recent n xs @ ys) = most_recent n (xs @ ys)"
proof (cases "length xs \<le> n")
  case True
  then show ?thesis by (simp add: most_recent_def)
next
  case False
  define d where "d = length xs - n"
  from False have d: "d \<le> length xs" "length xs - d = n" "length (xs @ ys) - n = d + length ys"
    by (simp_all add: d_def)
  have "most_recent n (most_recent n xs @ ys) = drop (length ys) (drop d xs @ ys)"
    using d(2) by (simp add: most_recent_def d_def)
  also have "drop d xs @ ys = drop d (xs @ ys)"
    using d(1) by simp
  also have "drop (length ys) (drop d (xs @ ys)) = drop (d + length ys) (xs @ ys)"
    unfolding drop_drop by (simp only: add.commute)
  also have "\<dots> = most_recent n (xs @ ys)"
    unfolding most_recent_def d(3) ..
  finally show ?thesis .
qed

lemma length_most_recent: "length (most_recent n xs) = min n (length xs)"
  by (simp add: most_recent_def)

lemma most_recent_long_suffix:
  "n \<le> length ys \<Longrightarrow> most_recent n (xs @ ys) = most_recent n ys"
  by (simp add: most_recent_def)

lemma kept_Nil: "kept old [] = old"
  by (simp add: kept_def)

lemma kept_Cons: "kept (retain (old @ [x])) new = kept old (x # new)"
  using most_recent_append_most_recent [of 1000 "old @ [x]" new]
  by (simp add: kept_def retain_most_recent)

lemma kept_append: "kept (kept old xs) ys = kept old (xs @ ys)"
  using most_recent_append_most_recent [of 1000 "old @ xs" ys]
  by (simp add: kept_def)

subsection \<open>One metric instance\<close>

lemma samples_of_add_metric:
  "samples_of (add_metric f64 ts name ty s m) k =
     (if seriesKey name m = k
      then retain (samples_of s k @ [\<lparr>Timestamp = ts, Value = extract_value f64 ty m\<rparr>])
      else samples_of s k)"
  by (auto simp: add_metric_def samples_of_def Let_def split: option.splits)

lemma dom_add_metric:
  "dom (add_metric f64 ts name ty s m) = insert (seriesKey name m) (dom s)"
  by (simp add: add_metric_def Let_def)

lemma add_metric_other:
  "k \<noteq> seriesKey name m \<Longrightarrow> add_metric f64 ts name ty s m k = s k"
  by (simp add: add_metric_def Let_def)

lemma labels_of_add_metric:
  "labels_of (add_metric f64 ts name ty s m) k =
     (if seriesKey name m = k \<and> s k = None then Some (build_labels name m) else labels_of s k)"
  by (auto simp: add_metric_def labels_of_def Let_def split: option.splits)

subsection \<open>One batch\<close>

lemma foldl_add_family:
  "foldl (add_family f64 ts) s families = foldl (add_instance f64 ts) s (instances families)"
proof (induction families arbitrary: s)
  case Nil
  show ?case by (simp add: instances_def)
next
  case (Cons entry families)
  obtain name family where entry: "entry = (name, family)" by (cases entry)
  have inner: "foldl (add_metric f64 ts name ty) s ms =
      foldl (add_instance f64 ts) s (map (\<lambda>metric. (name, ty, metric)) ms)" for ty ms s
    by (induction ms arbitrary: s) (simp_all add: add_instance_def)
  have "instances (entry # families) =
      map (\<lambda>metric. (name, GetType family, metric)) (Metric family) @ instances families"
    by (simp add: instances_def entry)
  then show ?case
    using Cons.IH by (simp add: entry add_family_def inner)
qed

lemma samples_of_foldl_instances:
  "samples_of (foldl (add_instance f64 ts) s insts) k =
     kept (samples_of s k)
       (map (\<lambda>(name, ty, m). \<lparr>Timestamp = ts, Value = extract_value f64 ty m\<rparr>)
         (filter (\<lambda>(name, ty, m). seriesKey name m = k) insts))"
proof (induction insts arbitrary: s)
  case Nil
  show ?case by (simp add: kept_Nil)
next
  case (Cons inst insts)
  obtain name ty m where inst: "inst = (name, ty, m)" by (cases inst)
  show ?case
  proof (cases "seriesKey name m = k")
    case True
    then show ?thesis
      using Cons.IH [of "add_instance f64 ts s inst"]
      by (simp add: inst add_instance_def samples_of_add_metric kept_Cons)
  next
    case False
    then show ?thesis
      using Cons.IH [of "add_instance f64 ts s inst"]
      by (simp add: inst add_instance_def samples_of_add_metric)
  qed
qed

lemma AddMetricFamilies_eq:
  "AddMetricFamilies f64 families (clk, s) =
     (clk\<lparr>reads := Suc (reads clk)\<rparr>,
      foldl (add_instance f64 (readings clk (reads clk))) s (instances families))"
  by (simp add: AddMetricFamilies_def time_Now_UnixMilli_def foldl_add_family)

lemma samples_of_AddMetricFamilies:
  "samples_of (snd (AddMetricFamilies f64 families (clk, s))) k =
     kept (samples_of s k) (batch_samples f64 (readings clk (reads clk)) k families)"
  by (simp add: AddMetricFamilies_eq samples_of_foldl_instances batch_samples_def)

lemma dom_foldl_instances:
  "dom (foldl (add_instance f64 ts) s insts) =
     dom s \<union> (\<lambda>(name, ty, m). seriesKey name m) ` set insts"
proof (induction insts arbitrary: s)
  case Nil
  show ?case by simp
next
  case (Cons inst insts)
  obtain name ty m where inst: "inst = (name, ty, m)" by (cases inst)
  have first: "dom (add_instance f64 ts s inst) = insert (seriesKey name m) (dom s)"
    by (simp add: inst add_instance_def dom_add_metric)
  show ?case
    unfolding foldl_Cons Cons.IH first by (simp add: inst)
qed

lemma labels_of_foldl_instances:
  "labels_of s k = Some ls \<Longrightarrow> labels_of (foldl (add_instance f64 ts) s insts) k = Some ls"
proof (induction insts arbitrary: s)
  case Nil
  then show ?case by simp
next
  case (Cons inst insts)
  obtain name ty m where inst: "inst = (name, ty, m)" by (cases inst)
  from Cons.prems obtain series where "s k = Some series"
    by (auto simp: labels_of_def)
  then have "labels_of (add_instance f64 ts s inst) k = Some ls"
    using Cons.prems by (simp add: inst add_instance_def labels_of_add_metric)
  from Cons.IH [OF this] show ?case by simp
qed

subsection \<open>A sequence of batches\<close>

lemma ingest_all_Cons:
  "ingest_all f64 (families # batches) st = ingest_all f64 batches (AddMetricFamilies f64 families st)"
  by (simp add: ingest_all_def)

lemma samples_of_ingest_all:
  "samples_of (snd (ingest_all f64 batches (clk, s))) k =
     kept (samples_of s k) (appended_samples f64 clk k batches)"
proof (induction batches arbitrary: clk s)
  case Nil
  show ?case by (simp add: ingest_all_def kept_Nil)
next
  case (Cons families batches)
  let ?s1 = "foldl (add_instance f64 (readings clk (reads clk))) s (instances families)"
  have "samples_of ?s1 k = kept (samples_of s k) (batch_samples f64 (readings clk (reads clk)) k families)"
    using samples_of_AddMetricFamilies [of f64 families clk s k]
    by (simp add: AddMetricFamilies_eq)
  then show ?case
    unfolding ingest_all_Cons AddMetricFamilies_eq Cons.IH
    by (simp add: kept_append)
qed

lemma labels_of_ingest_all:
  "labels_of s k = Some ls \<Longrightarrow> labels_of (snd (ingest_all f64 batches (clk, s))) k = Some ls"
proof (induction batches arbitrary: clk s)
  case Nil
  then show ?case by (simp add: ingest_all_def)
next
  case (Cons families batches)
  show ?case
    unfolding ingest_all_Cons AddMetricFamilies_eq
    by (rule Cons.IH) (rule labels_of_foldl_instances [OF Cons.prems])
qed

lemma dom_ingest_all: "dom s \<subseteq> dom (snd (ingest_all f64 batches (clk, s)))"
proof (induction batches arbitrary: clk s)
  case Nil
  show ?case by (simp add: ingest_all_def)
next
  case (Cons families batches)
  have "dom s \<subseteq> dom (foldl (add_instance f64 (readings clk (reads clk))) s (instances families))"
    unfolding dom_foldl_instances by simp
  also have "\<dots> \<subseteq> dom (snd (ingest_all f64 (families # batches) (clk, s)))"
    unfolding ingest_all_Cons AddMetricFamilies_eq by (rule Cons.IH)
  finally show ?case .
qed

text \<open>
  Claim C3. After any sequence of ingest calls, from any index and clock, the samples of
  the series with key \<open>k\<close> are the samples it had when the calls appended none to it, and
  otherwise the most recent 1000 of the samples it had followed by the appended ones:
  the last 1000 of that sequence, in their order (all of it when it has no more than
  1000). When the calls appended more than 1000 samples to the series, it holds exactly
  the most recent 1000 of the appended ones. No key leaves the index, and a series that
  was in the index keeps its labels.
\<close>

theorem retention_most_recent_1000:
  "samples_of (snd (ingest_all f64 batches (clk, s))) k =
     (if appended_samples f64 clk k batches = [] then samples_of s k
      else most_recent 1000 (samples_of s k @ appended_samples f64 clk k batches)) \<and>
   (most_recent 1000 (samples_of s k @ appended_samples f64 clk k batches) =
      drop (length (samples_of s k @ appended_samples f64 clk k batches) - 1000)
        (samples_of s k @ appended_samples f64 clk k batches)) \<and>
   (1000 < length (appended_samples f64 clk k batches) \<longrightarrow>
      samples_of (snd (ingest_all f64 batches (clk, s))) k =
        most_recent 1000 (appended_samples f64 clk k batches) \<and>
      length (samples_of (snd (ingest_all f64 batches (clk, s))) k) = 1000) \<and>
   dom s \<subseteq> dom (snd (ingest_all f64 batches (clk, s))) \<and>
   (\<forall>series. s k = Some series \<longrightarrow>
      (\<exists>series'. snd (ingest_all f64 batches (clk, s)) k = Some series' \<and>
                  SeriesLabels series' = SeriesLabels series))"
proof -
  let ?new = "appended_samples f64 clk k batches"
  let ?s' = "snd (ingest_all f64 batches (clk, s))"
  have eq: "samples_of ?s' k =
      (if ?new = [] then samples_of s k else most_recent 1000 (samples_of s k @ ?new))"
    by (simp add: samples_of_ingest_all kept_def)
  have long: "samples_of ?s' k = most_recent 1000 ?new \<and> length (samples_of ?s' k) = 1000"
    if "1000 < length ?new"
  proof -
    from that have "?new \<noteq> []" by auto
    with eq have "samples_of ?s' k = most_recent 1000 (samples_of s k @ ?new)" by simp
    also have "\<dots> = most_recent 1000 ?new"
      using that by (intro most_recent_long_suffix) simp
    finally show ?thesis
      using that by (simp add: length_most_recent)
  qed
  have labels: "\<exists>series'. ?s' k = Some series' \<and> SeriesLabels series' = SeriesLabels series"
    if "s k = Some series" for series
  proof -
    from that have "labels_of s k = Some (SeriesLabels series)"
      by (simp add: labels_of_def)
    then have "labels_of ?s' k = Some (SeriesLabels series)"
      by (rule labels_of_ingest_all)
    then show ?thesis by (auto simp: labels_of_def)
  qed
  show ?thesis
    using eq long labels dom_ingest_all [of s f64 batches clk]
    by (simp add: most_recent_def)
qed

theorem retention_most_recent_1000_witness:
  "samples_of
     (snd (ingest_all float64_of
        [[(''up'', \<lparr>GetType = GAUGE, Metric = replicate 1001 (gauge [(''job'', ''a'')] 8)\<rparr>)]]
        (clock0, NewMetricStore)))
     (seriesKey ''up'' (gauge [(''job'', ''a'')] 8))
   = replicate 1000 \<lparr>Timestamp = 1000, Value = 8\<rparr>"
proof -
  let ?m = "gauge [(''job'', ''a'')] 8"
  have new: "appended_samples float64_of clock0 (seriesKey ''up'' ?m)
      [[(''up'', \<lparr>GetType = GAUGE, Metric = replicate 1001 ?m\<rparr>)]]
    = replicate 1001 \<lparr>Timestamp = 1000, Value = 8\<rparr>"
    by (simp add: batch_samples_def instances_def clock0_def extract_value_def gauge_def)
  show ?thesis
    using retention_most_recent_1000 [of float64_of
        "[[(''up'', \<lparr>GetType = GAUGE, Metric = replicate 1001 ?m\<rparr>)]]" clock0 NewMetricStore
        "seriesKey ''up'' ?m"]
    unfolding new by (simp add: most_recent_def)
qed

text \<open>
  Claim C7. One call of \<^verbatim>\<open>AddMetricFamilies\<close> reads the clock exactly once. With \<open>ts\<close>
  the value of that reading, the samples of the series with key \<open>k\<close> after the call are
  those before it followed by one sample per instance of the batch with that key (then
  trimmed to the most recent 1000), and every one of these appended samples has the
  timestamp \<open>ts\<close>, however many families and instances the batch has. So every sample
  of the series after the call was there before or has the timestamp \<open>ts\<close>.
\<close>

theorem batch_single_timestamp:
  "fst (AddMetricFamilies f64 families (clk, s)) = clk\<lparr>reads := Suc (reads clk)\<rparr> \<and>
   samples_of (snd (AddMetricFamilies f64 families (clk, s))) k =
     (if batch_samples f64 (readings clk (reads clk)) k families = [] then samples_of s k
      else most_recent 1000
             (samples_of s k @ batch_samples f64 (readings clk (reads clk)) k families)) \<and>
   length (batch_samples f64 (readings clk (reads clk)) k families) =
     length (filter (\<lambda>(name, ty, m). seriesKey name m = k) (instances families)) \<and>
   (\<forall>x \<in> set (batch_samples f64 (readings clk (reads clk)) k families).
      Timestamp x = readings clk (reads clk)) \<and>
   (\<forall>x \<in> set (samples_of (snd (AddMetricFamilies f64 families (clk, s))) k).
      x \<in> set (samples_of s k) \<or> Timestamp x = readings clk (reads clk))"
proof -
  let ?ts = "readings clk (reads clk)"
  let ?new = "batch_samples f64 ?ts k families"
  let ?s' = "snd (AddMetricFamilies f64 families (clk, s))"
  have clock: "fst (AddMetricFamilies f64 families (clk, s)) = clk\<lparr>reads := Suc (reads clk)\<rparr>"
    by (simp add: AddMetricFamilies_eq)
  have eq: "samples_of ?s' k =
      (if ?new = [] then samples_of s k else most_recent 1000 (samples_of s k @ ?new))"
    unfolding samples_of_AddMetricFamilies kept_def ..
  have len: "length ?new =
      length (filter (\<lambda>(name, ty, m). seriesKey name m = k) (instances families))"
    unfolding batch_samples_def by (rule length_map)
  have ts: "\<forall>x \<in> set ?new. Timestamp x = ?ts"
    unfolding batch_samples_def by auto
  have "set (most_recent 1000 (samples_of s k @ ?new)) \<subseteq> set (samples_of s k @ ?new)"
    unfolding most_recent_def by (rule set_drop_subset)
  then have "set (samples_of ?s' k) \<subseteq> set (samples_of s k) \<union> set ?new"
    unfolding eq by (cases "?new = []") simp_all
  with ts have old_or_ts:
    "\<forall>x \<in> set (samples_of ?s' k). x \<in> set (samples_of s k) \<or> Timestamp x = ?ts"
    by blast
  from clock eq len ts old_or_ts show ?thesis
    by (intro conjI)
qed

theorem batch_single_timestamp_witness:
  "fst (AddMetricFamilies float64_of
          [(''apiserver_request_total'',
              \<lparr>GetType = GAUGE,
               Metric = [gauge [(''method'', ''GET'')] 5, gauge [(''method'', ''POST'')] 3]\<rparr>),
           (''kubelet_running_pods'', \<lparr>GetType = GAUGE, Metric = [gauge [] 8]\<rparr>)]
          (clock0, NewMetricStore)) = clock0\<lparr>reads := 1\<rparr> \<and>
   samples_of (snd (AddMetricFamilies float64_of
          [(''apiserver_request_total'',
              \<lparr>GetType = GAUGE,
               Metric = [gauge [(''method'', ''GET'')] 5, gauge [(''method'', ''POST'')] 3]\<rparr>),
           (''kubelet_running_pods'', \<lparr>GetType = GAUGE, Metric = [gauge [] 8]\<rparr>)]
          (clock0, NewMetricStore)))
     (seriesKey ''apiserver_request_total'' (gauge [(''method'', ''POST'')] 3))
     = [\<lparr>Timestamp = 1000, Value = 3\<rparr>] \<and>
   samples_of (snd (AddMetricFamilies float64_of
          [(''apiserver_request_total'',
              \<lparr>GetType = GAUGE,
               Metric = [gauge [(''method'', ''GET'')] 5, gauge [(''method'', ''POST'')] 3]\<rparr>),
           (''kubelet_running_pods'', \<lparr>GetType = GAUGE, Metric = [gauge [] 8]\<rparr>)]
          (clock0, NewMetricStore)))
     (seriesKey ''kubelet_running_pods'' (gauge [] 8))
     = [\<lparr>Timestamp = 1000, Value = 8\<rparr>]"
proof -
  let ?fams = "[(''apiserver_request_total'',
              \<lparr>GetType = GAUGE,
               Metric = [gauge [(''method'', ''GET'')] 5, gauge [(''method'', ''POST'')] 3]\<rparr>),
           (''kubelet_running_pods'', \<lparr>GetType = GAUGE, Metric = [gauge [] 8]\<rparr>)]"
  let ?post = "seriesKey ''apiserver_request_total'' (gauge [(''method'', ''POST'')] 3)"
  let ?pods = "seriesKey ''kubelet_running_pods'' (gauge [] 8)"
  have now: "readings clock0 (reads clock0) = 1000"
    by (simp add: clock0_def)
  have keys: "seriesKey ''apiserver_request_total'' (gauge [(''method'', ''GET'')] 5) \<noteq> ?post"
      "seriesKey ''apiserver_request_total'' (gauge [(''method'', ''GET'')] 5) \<noteq> ?pods"
      "?pods \<noteq> ?post"
    by (simp_all add: seriesKey_def build_labels_def sort_Slice_def gauge_def Labels_String_def
        Quote_def quote_char_def write_label_def legacy_letter_def legacy_digit_def)
  have post: "batch_samples float64_of 1000 ?post ?fams = [\<lparr>Timestamp = 1000, Value = 3\<rparr>]"
    using keys by (simp add: batch_samples_def instances_def extract_value_def)
      (simp add: gauge_def)
  have pods: "batch_samples float64_of 1000 ?pods ?fams = [\<lparr>Timestamp = 1000, Value = 8\<rparr>]"
    using keys by (simp add: batch_samples_def instances_def extract_value_def)
      (simp add: gauge_def)
  have empty: "samples_of NewMetricStore k = []" for k :: string
    by (simp add: samples_of_def NewMetricStore_def)
  show ?thesis
    using batch_single_timestamp [of float64_of ?fams clock0 NewMetricStore ?post]
      batch_single_timestamp [of float64_of ?fams clock0 NewMetricStore ?pods]
    unfolding now post pods empty
    by (simp add: most_recent_def clock0_def)
qed

lemma instances_single: "instances [(name, \<lparr>GetType = ty, Metric = [m]\<rparr>)] = [(name, ty, m)]"
  by (simp add: instances_def)

lemma TimeSeries_update:
  "(series :: 'v TimeSeries)\<lparr>Samples := xs\<rparr> = \<lparr>SeriesLabels = SeriesLabels series, Samples = xs\<rparr>"
  by (cases series) simp

lemma add_metric_twice:
  assumes "seriesKey name m' = seriesKey name m"
  shows "add_metric f64 t2 name ty' (add_metric f64 t1 name ty s m) m' =
     s(seriesKey name m \<mapsto>
        \<lparr>SeriesLabels = (case s (seriesKey name m) of
                           Some series \<Rightarrow> SeriesLabels series
                         | None \<Rightarrow> build_labels name m),
         Samples = retain (retain (samples_of s (seriesKey name m) @
                      [\<lparr>Timestamp = t1, Value = extract_value f64 ty m\<rparr>]) @
                      [\<lparr>Timestamp = t2, Value = extract_value f64 ty' m'\<rparr>])\<rparr>)"
  using assms
  by (simp add: add_metric_def samples_of_def Let_def TimeSeries_update split: option.splits)

text \<open>
  Claim C2. A label set has no two labels of the same name, and \<open>__name__\<close> is
  reserved for the metric name: the label pairs of an instance have pairwise distinct
  names, different from \<open>__name__\<close>. Let \<open>m\<close> and \<open>m'\<close> be two instances with the same
  such label pairs, in any order. Then both have the same series key, and ingesting
  \<open>m\<close> and then \<open>m'\<close> under the same metric name, in two calls, changes the index at
  that one key only: the key is mapped to one series (the one that was there, or a new
  one with the sorted labels) whose samples are those it had followed by the two new
  samples, trimmed to the most recent 1000.
\<close>

theorem same_label_set_one_series:
  assumes "mset (metric_Label m') = mset (metric_Label m)"
    and "distinct (''__name__'' # map GetName (metric_Label m))"
  shows "seriesKey name m' = seriesKey name m \<and>
    snd (AddMetricFamilies f64 [(name, \<lparr>GetType = ty', Metric = [m']\<rparr>)]
          (AddMetricFamilies f64 [(name, \<lparr>GetType = ty, Metric = [m]\<rparr>)] (clk, s))) =
      s(seriesKey name m \<mapsto>
        \<lparr>SeriesLabels = (case s (seriesKey name m) of
                           Some series \<Rightarrow> SeriesLabels series
                         | None \<Rightarrow> build_labels name m),
         Samples = most_recent 1000 (samples_of s (seriesKey name m) @
                     [\<lparr>Timestamp = readings clk (reads clk), Value = extract_value f64 ty m\<rparr>,
                      \<lparr>Timestamp = readings clk (Suc (reads clk)),
                       Value = extract_value f64 ty' m'\<rparr>])\<rparr>)"
proof -
  have key: "seriesKey name m' = seriesKey name m"
    unfolding seriesKey_def build_labels_permutation [OF assms] ..
  let ?x1 = "\<lparr>Timestamp = readings clk (reads clk), Value = extract_value f64 ty m\<rparr>"
  let ?x2 = "\<lparr>Timestamp = readings clk (Suc (reads clk)), Value = extract_value f64 ty' m'\<rparr>"
  let ?old = "samples_of s (seriesKey name m)"
  have "retain (retain (?old @ [?x1]) @ [?x2]) = most_recent 1000 ((?old @ [?x1]) @ [?x2])"
    unfolding retain_most_recent by (rule most_recent_append_most_recent)
  then have trim: "retain (retain (?old @ [?x1]) @ [?x2]) = most_recent 1000 (?old @ [?x1, ?x2])"
    by simp
  have "snd (AddMetricFamilies f64 [(name, \<lparr>GetType = ty', Metric = [m']\<rparr>)]
          (AddMetricFamilies f64 [(name, \<lparr>GetType = ty, Metric = [m]\<rparr>)] (clk, s))) =
        add_metric f64 (readings clk (Suc (reads clk))) name ty'
          (add_metric f64 (readings clk (reads clk)) name ty s m) m'"
    by (simp add: AddMetricFamilies_eq instances_single add_instance_def)
  then show ?thesis
    unfolding add_metric_twice [OF key] trim using key by simp
qed

theorem same_label_set_one_series_witness:
  "snd (AddMetricFamilies float64_of
          [(''up'', \<lparr>GetType = GAUGE,
                      Metric = [gauge [(''zone'', ''z''), (''job'', ''a'')] 2]\<rparr>)]
          (AddMetricFamilies float64_of
             [(''up'', \<lparr>GetType = GAUGE,
                         Metric = [gauge [(''job'', ''a''), (''zone'', ''z'')] 1]\<rparr>)]
             (clock0, NewMetricStore))) =
     [seriesKey ''up'' (gauge [(''job'', ''a''), (''zone'', ''z'')] 1) \<mapsto>
        \<lparr>SeriesLabels = [\<lparr>label_Name = ''__name__'', label_Value = ''up''\<rparr>,
                         \<lparr>label_Name = ''job'', label_Value = ''a''\<rparr>,
                         \<lparr>label_Name = ''zone'', label_Value = ''z''\<rparr>],
         Samples = [\<lparr>Timestamp = 1000, Value = 1\<rparr>, \<lparr>Timestamp = 1001, Value = 2\<rparr>]\<rparr>]"
proof -
  let ?m = "gauge [(''job'', ''a''), (''zone'', ''z'')] 1"
  let ?m' = "gauge [(''zone'', ''z''), (''job'', ''a'')] 2"
  have perm: "mset (metric_Label ?m') = mset (metric_Label ?m)"
    by (simp add: gauge_def)
  have dist: "distinct (''__name__'' # map GetName (metric_Label ?m))"
    by (simp add: gauge_def)
  have lbls: "build_labels ''up'' ?m =
      [\<lparr>label_Name = ''__name__'', label_Value = ''up''\<rparr>,
       \<lparr>label_Name = ''job'', label_Value = ''a''\<rparr>,
       \<lparr>label_Name = ''zone'', label_Value = ''z''\<rparr>]"
    by (simp add: build_labels_def sort_Slice_def gauge_def)
  have vals: "extract_value float64_of GAUGE ?m = 1" "extract_value float64_of GAUGE ?m' = 2"
    by (simp_all add: extract_value_def gauge_def)
  show ?thesis
    using same_label_set_one_series [OF perm dist, of "''up''" float64_of GAUGE GAUGE clock0 NewMetricStore]
    unfolding lbls vals
    by (simp add: NewMetricStore_def samples_of_def most_recent_def clock0_def)
qed

end
